theory Spec2Isabelle
  imports Complex_Main
begin

section \<open>Lifecycle callbacks of \<open>dl/callback.py\<close>\<close>

text \<open>
  The module defines a base class \<open>Callback\<close> with ten hooks that do nothing, a
  \<open>CallbackCompose\<close> that forwards each hook to every callback of a dictionary, and two
  callbacks computing batch metrics, \<open>MetricCallback\<close> and \<open>MultiMetricCallback\<close>.

  Every hook receives the run state by reference and mutates it in place. The model threads
  the state: a hook takes the state and gives back an outcome, which is the state after a
  normal return, or the exception together with the state as the hook left it when the
  exception escaped (writes made before a raise stay in the shared object).
\<close>

subsection \<open>Run state, exceptions, outcomes\<close>

text \<open>
  The state object: the hooks of this module touch three of its attributes, all
  dictionaries keyed by strings. The record is used through its scheme, so a state may
  carry more attributes.
\<close>

record ('v, 's) RunState =
  "input" :: "string \<rightharpoonup> 'v"
  "output" :: "string \<rightharpoonup> 'v"
  batch_metrics :: "string \<rightharpoonup> 's"

text \<open>
  The only exception the module raises by itself is the \<open>KeyError\<close> of a dictionary
  subscript; \<open>External\<close> carries whatever a collaborator called by the module raises
  (the metric function, \<open>UtilsFactory.get_val_from_metric\<close>).
\<close>

datatype 'x error = KeyError string | External 'x

datatype ('e, 'st) outcome = Done 'st | Raised 'e 'st

fun state_of :: "('e, 'st) outcome \<Rightarrow> 'st" where
  "state_of (Done state) = state"
| "state_of (Raised e state) = state"

fun raised :: "('e, 'st) outcome \<Rightarrow> 'e option" where
  "raised (Done state) = None"
| "raised (Raised e state) = Some e"

subsection \<open>Callback\<close>

text \<open>An object with the ten hook methods; a subclass overrides some of them.\<close>

record ('e, 'st) Callback =
  on_train_start :: "'st \<Rightarrow> ('e, 'st) outcome"
  on_train_end :: "'st \<Rightarrow> ('e, 'st) outcome"
  on_infer_start :: "'st \<Rightarrow> ('e, 'st) outcome"
  on_infer_end :: "'st \<Rightarrow> ('e, 'st) outcome"
  on_epoch_start :: "'st \<Rightarrow> ('e, 'st) outcome"
  on_epoch_end :: "'st \<Rightarrow> ('e, 'st) outcome"
  on_loader_start :: "'st \<Rightarrow> ('e, 'st) outcome"
  on_loader_end :: "'st \<Rightarrow> ('e, 'st) outcome"
  on_batch_start :: "'st \<Rightarrow> ('e, 'st) outcome"
  on_batch_end :: "'st \<Rightarrow> ('e, 'st) outcome"

text \<open>The body \<open>pass\<close>: return at once, the state untouched.\<close>

definition pass :: "'st \<Rightarrow> ('e, 'st) outcome" where
  "pass state = Done state"

text \<open>An instance of the base class \<open>Callback\<close>.\<close>

definition Callback_default :: "('e, 'st) Callback" where
  "Callback_default =
     \<lparr>on_train_start = pass, on_train_end = pass,
      on_infer_start = pass, on_infer_end = pass,
      on_epoch_start = pass, on_epoch_end = pass,
      on_loader_start = pass, on_loader_end = pass,
      on_batch_start = pass, on_batch_end = pass\<rparr>"

text \<open>The ten hook names, and the method of an object that a name selects.\<close>

datatype hook =
  OnTrainStart | OnTrainEnd | OnInferStart | OnInferEnd | OnEpochStart | OnEpochEnd
| OnLoaderStart | OnLoaderEnd | OnBatchStart | OnBatchEnd

fun hook_method :: "hook \<Rightarrow> ('e, 'st) Callback \<Rightarrow> 'st \<Rightarrow> ('e, 'st) outcome" where
  "hook_method OnTrainStart = on_train_start"
| "hook_method OnTrainEnd = on_train_end"
| "hook_method OnInferStart = on_infer_start"
| "hook_method OnInferEnd = on_infer_end"
| "hook_method OnEpochStart = on_epoch_start"
| "hook_method OnEpochEnd = on_epoch_end"
| "hook_method OnLoaderStart = on_loader_start"
| "hook_method OnLoaderEnd = on_loader_end"
| "hook_method OnBatchStart = on_batch_start"
| "hook_method OnBatchEnd = on_batch_end"

subsection \<open>CallbackCompose\<close>

text \<open>
  \<open>callbacks\<close> is a dictionary from names to callbacks; \<open>items()\<close> yields its pairs in
  insertion order, so the dictionary is the list of its pairs in that order.
\<close>

record ('e, 'st) CallbackCompose =
  callbacks :: "(string \<times> ('e, 'st) Callback) list"

text \<open>
  The loop \<open>for key, value in self.callbacks.items(): value.m(state=state)\<close>, for a method
  \<open>m\<close>. Nothing catches an exception, so the loop ends at the first hook that raises.
\<close>

fun for_items ::
  "(('e, 'st) Callback \<Rightarrow> 'st \<Rightarrow> ('e, 'st) outcome) \<Rightarrow>
   (string \<times> ('e, 'st) Callback) list \<Rightarrow> 'st \<Rightarrow> ('e, 'st) outcome" where
  "for_items m [] state = Done state"
| "for_items m ((key, value) # items) state =
     (case m value state of
        Done state' \<Rightarrow> for_items m items state'
      | Raised e state' \<Rightarrow> Raised e state')"

definition CallbackCompose_on_train_start ::
  "('e, 'st) CallbackCompose \<Rightarrow> 'st \<Rightarrow> ('e, 'st) outcome" where
  "CallbackCompose_on_train_start self state = for_items on_train_start (callbacks self) state"

definition CallbackCompose_on_train_end ::
  "('e, 'st) CallbackCompose \<Rightarrow> 'st \<Rightarrow> ('e, 'st) outcome" where
  "CallbackCompose_on_train_end self state = for_items on_train_end (callbacks self) state"

definition CallbackCompose_on_infer_start ::
  "('e, 'st) CallbackCompose \<Rightarrow> 'st \<Rightarrow> ('e, 'st) outcome" where
  "CallbackCompose_on_infer_start self state = for_items on_infer_start (callbacks self) state"

definition CallbackCompose_on_infer_end ::
  "('e, 'st) CallbackCompose \<Rightarrow> 'st \<Rightarrow> ('e, 'st) outcome" where
  "CallbackCompose_on_infer_end self state = for_items on_infer_end (callbacks self) state"

definition CallbackCompose_on_epoch_start ::
  "('e, 'st) CallbackCompose \<Rightarrow> 'st \<Rightarrow> ('e, 'st) outcome" where
  "CallbackCompose_on_epoch_start self state = for_items on_epoch_start (callbacks self) state"

definition CallbackCompose_on_epoch_end ::
  "('e, 'st) CallbackCompose \<Rightarrow> 'st \<Rightarrow> ('e, 'st) outcome" where
  "CallbackCompose_on_epoch_end self state = for_items on_epoch_end (callbacks self) state"

definition CallbackCompose_on_loader_start ::
  "('e, 'st) CallbackCompose \<Rightarrow> 'st \<Rightarrow> ('e, 'st) outcome" where
  "CallbackCompose_on_loader_start self state = for_items on_loader_start (callbacks self) state"

definition CallbackCompose_on_loader_end ::
  "('e, 'st) CallbackCompose \<Rightarrow> 'st \<Rightarrow> ('e, 'st) outcome" where
  "CallbackCompose_on_loader_end self state = for_items on_loader_end (callbacks self) state"

definition CallbackCompose_on_batch_start ::
  "('e, 'st) CallbackCompose \<Rightarrow> 'st \<Rightarrow> ('e, 'st) outcome" where
  "CallbackCompose_on_batch_start self state = for_items on_batch_start (callbacks self) state"

definition CallbackCompose_on_batch_end ::
  "('e, 'st) CallbackCompose \<Rightarrow> 'st \<Rightarrow> ('e, 'st) outcome" where
  "CallbackCompose_on_batch_end self state = for_items on_batch_end (callbacks self) state"

text \<open>The method of the composition that a hook name selects.\<close>

fun CallbackCompose_method ::
  "hook \<Rightarrow> ('e, 'st) CallbackCompose \<Rightarrow> 'st \<Rightarrow> ('e, 'st) outcome" where
  "CallbackCompose_method OnTrainStart = CallbackCompose_on_train_start"
| "CallbackCompose_method OnTrainEnd = CallbackCompose_on_train_end"
| "CallbackCompose_method OnInferStart = CallbackCompose_on_infer_start"
| "CallbackCompose_method OnInferEnd = CallbackCompose_on_infer_end"
| "CallbackCompose_method OnEpochStart = CallbackCompose_on_epoch_start"
| "CallbackCompose_method OnEpochEnd = CallbackCompose_on_epoch_end"
| "CallbackCompose_method OnLoaderStart = CallbackCompose_on_loader_start"
| "CallbackCompose_method OnLoaderEnd = CallbackCompose_on_loader_end"
| "CallbackCompose_method OnBatchStart = CallbackCompose_on_batch_start"
| "CallbackCompose_method OnBatchEnd = CallbackCompose_on_batch_end"

subsection \<open>MetricCallback\<close>

text \<open>
  The attributes set by \<open>__init__\<close>. The metric function is supplied by the caller: it
  returns a metric or raises; it is a function of its arguments, so it is taken not to
  mutate them. \<open>metric_params\<close> are the keyword arguments handed on to it.
\<close>

record ('f, 'p) MetricCallback =
  prefix :: string
  metric_fn :: 'f
  input_key :: string
  output_key :: string
  metric_params :: "string \<rightharpoonup> 'p"

text \<open>\<open>__init__\<close>, with the defaults of the two keys when the caller gives none.\<close>

definition MetricCallback_init ::
  "string \<Rightarrow> 'f \<Rightarrow> string option \<Rightarrow> string option \<Rightarrow> (string \<rightharpoonup> 'p) \<Rightarrow> ('f, 'p) MetricCallback"
  where
  "MetricCallback_init pre fn ik ok params =
     \<lparr>prefix = pre, metric_fn = fn,
      input_key = (case ik of None \<Rightarrow> ''targets'' | Some k \<Rightarrow> k),
      output_key = (case ok of None \<Rightarrow> ''logits'' | Some k \<Rightarrow> k),
      metric_params = params\<rparr>"

text \<open>
  \<open>on_batch_end\<close>. \<open>UtilsFactory.get_val_from_metric\<close> is imported from another module
  and is a parameter here, \<open>get_val\<close>: it returns a value or raises. The right-hand side of
  the assignment is evaluated before the store, so a raise leaves the dictionary as it was.
\<close>

definition MetricCallback_on_batch_end ::
  "('m \<Rightarrow> 'x + 's) \<Rightarrow>
   ('v \<Rightarrow> 'v \<Rightarrow> (string \<rightharpoonup> 'p) \<Rightarrow> 'x + 'm, 'p, 'c) MetricCallback_scheme \<Rightarrow>
   ('v, 's, 'z) RunState_scheme \<Rightarrow> ('x error, ('v, 's, 'z) RunState_scheme) outcome" where
  "MetricCallback_on_batch_end get_val self state =
     (case output state (output_key self) of
        None \<Rightarrow> Raised (KeyError (output_key self)) state
      | Some outputs \<Rightarrow>
          (case input state (input_key self) of
             None \<Rightarrow> Raised (KeyError (input_key self)) state
           | Some targets \<Rightarrow>
               (case metric_fn self targets outputs (metric_params self) of
                  Inl x \<Rightarrow> Raised (External x) state
                | Inr metric \<Rightarrow>
                    (case get_val metric of
                       Inl x \<Rightarrow> Raised (External x) state
                     | Inr val \<Rightarrow>
                         Done (state\<lparr>batch_metrics :=
                                 (batch_metrics state)(prefix self \<mapsto> val)\<rparr>)))))"

text \<open>The object: the base class with \<open>on_batch_end\<close> overridden.\<close>

definition MetricCallback_object ::
  "('m \<Rightarrow> 'x + 's) \<Rightarrow>
   ('v \<Rightarrow> 'v \<Rightarrow> (string \<rightharpoonup> 'p) \<Rightarrow> 'x + 'm, 'p, 'c) MetricCallback_scheme \<Rightarrow>
   ('x error, ('v, 's, 'z) RunState_scheme) Callback" where
  "MetricCallback_object get_val self =
     Callback_default\<lparr>on_batch_end := MetricCallback_on_batch_end get_val self\<rparr>"

subsection \<open>MultiMetricCallback\<close>

record ('f, 'p, 'a) MultiMetricCallback = "('f, 'p) MetricCallback" +
  list_args :: "'a list"

definition MultiMetricCallback_init ::
  "string \<Rightarrow> 'f \<Rightarrow> 'a list \<Rightarrow> string option \<Rightarrow> string option \<Rightarrow> (string \<rightharpoonup> 'p) \<Rightarrow>
   ('f, 'p, 'a) MultiMetricCallback" where
  "MultiMetricCallback_init pre fn args ik ok params =
     \<lparr>prefix = pre, metric_fn = fn,
      input_key = (case ik of None \<Rightarrow> ''targets'' | Some k \<Rightarrow> k),
      output_key = (case ok of None \<Rightarrow> ''logits'' | Some k \<Rightarrow> k),
      metric_params = params, list_args = args\<rparr>"

text \<open>
  The key \<open>f"{self.prefix}_{arg}"\<close>. \<open>list_args\<close> is a list of anything; \<open>format_arg\<close> is
  the text that formatting gives an element (the element itself when it is a string).
\<close>

definition metric_key :: "('a \<Rightarrow> string) \<Rightarrow> string \<Rightarrow> 'a \<Rightarrow> string" where
  "metric_key format_arg pre arg = pre @ ''_'' @ format_arg arg"

text \<open>
  The loop over \<open>zip(self.list_args, metrics)\<close>: one store per pair, in order. A raise of
  \<open>get_val\<close> ends the loop with the stores already made still in the dictionary.
\<close>

fun store_metrics ::
  "('m \<Rightarrow> 'x + 's) \<Rightarrow> ('a \<Rightarrow> string) \<Rightarrow> string \<Rightarrow> ('a \<times> 'm) list \<Rightarrow>
   ('v, 's, 'z) RunState_scheme \<Rightarrow> ('x error, ('v, 's, 'z) RunState_scheme) outcome" where
  "store_metrics get_val format_arg pre [] state = Done state"
| "store_metrics get_val format_arg pre ((arg, metric) # pairs) state =
     (case get_val metric of
        Inl x \<Rightarrow> Raised (External x) state
      | Inr val \<Rightarrow>
          store_metrics get_val format_arg pre pairs
            (state\<lparr>batch_metrics :=
               (batch_metrics state)(metric_key format_arg pre arg \<mapsto> val)\<rparr>))"

text \<open>
  \<open>on_batch_end\<close>. The metric function returns a sequence of metrics or raises; \<open>zip\<close> stops
  at the end of the shorter of its two arguments.
\<close>

definition MultiMetricCallback_on_batch_end ::
  "('m \<Rightarrow> 'x + 's) \<Rightarrow> ('a \<Rightarrow> string) \<Rightarrow>
   ('v \<Rightarrow> 'v \<Rightarrow> 'a list \<Rightarrow> (string \<rightharpoonup> 'p) \<Rightarrow> 'x + 'm list, 'p, 'a, 'c)
     MultiMetricCallback_scheme \<Rightarrow>
   ('v, 's, 'z) RunState_scheme \<Rightarrow> ('x error, ('v, 's, 'z) RunState_scheme) outcome" where
  "MultiMetricCallback_on_batch_end get_val format_arg self state =
     (case output state (output_key self) of
        None \<Rightarrow> Raised (KeyError (output_key self)) state
      | Some outputs \<Rightarrow>
          (case input state (input_key self) of
             None \<Rightarrow> Raised (KeyError (input_key self)) state
           | Some targets \<Rightarrow>
               (case metric_fn self targets outputs (list_args self) (metric_params self) of
                  Inl x \<Rightarrow> Raised (External x) state
                | Inr metrics \<Rightarrow>
                    store_metrics get_val format_arg (prefix self)
                      (zip (list_args self) metrics) state)))"

definition MultiMetricCallback_object ::
  "('m \<Rightarrow> 'x + 's) \<Rightarrow> ('a \<Rightarrow> string) \<Rightarrow>
   ('v \<Rightarrow> 'v \<Rightarrow> 'a list \<Rightarrow> (string \<rightharpoonup> 'p) \<Rightarrow> 'x + 'm list, 'p, 'a, 'c)
     MultiMetricCallback_scheme \<Rightarrow>
   ('x error, ('v, 's, 'z) RunState_scheme) Callback" where
  "MultiMetricCallback_object get_val format_arg self =
     Callback_default\<lparr>on_batch_end := MultiMetricCallback_on_batch_end get_val format_arg self\<rparr>"

subsection \<open>The value extraction of \<open>UtilsFactory\<close>\<close>

text \<open>
  Modelled from the spec: \<open>UtilsFactory.get_val_from_metric\<close> lives in
  \<open>catalyst.utils.factory\<close>, which is not among the sources. It accepts a bare numeric
  value and a boxed numeric value of a single element, and rejects anything else with
  \<open>UnsupportedMetricType\<close>. It is used only to run the hooks on concrete inputs; the
  theorems below hold for every extraction function.
\<close>

datatype 's metric = Bare 's | Boxed "'s list" | Opaque

datatype utils_error = UnsupportedMetricType

fun get_val_from_metric :: "'s metric \<Rightarrow> utils_error + 's" where
  "get_val_from_metric (Bare v) = Inr v"
| "get_val_from_metric (Boxed [v]) = Inr v"
| "get_val_from_metric (Boxed vs) = Inl UnsupportedMetricType"
| "get_val_from_metric Opaque = Inl UnsupportedMetricType"

subsection \<open>Observing the calls of a composition\<close>

text \<open>
  To see which hooks a composition calls, and with which state, every callback is wrapped:
  the wrapped hook appends its name, the hook and the state it was called with to a list
  kept beside the state, then runs the hook it wraps. The list is appended to before the
  hook runs its body, so a hook that raises is in the list as well.
\<close>

definition logged ::
  "string \<Rightarrow> hook \<Rightarrow> ('st \<Rightarrow> ('e, 'st) outcome) \<Rightarrow>
   'st \<times> (string \<times> hook \<times> 'st) list \<Rightarrow> ('e, 'st \<times> (string \<times> hook \<times> 'st) list) outcome" where
  "logged name h m =
     (\<lambda>(state, seen).
        case m state of
          Done state' \<Rightarrow> Done (state', seen @ [(name, h, state)])
        | Raised e state' \<Rightarrow> Raised e (state', seen @ [(name, h, state)]))"

definition logging ::
  "string \<Rightarrow> ('e, 'st) Callback \<Rightarrow> ('e, 'st \<times> (string \<times> hook \<times> 'st) list) Callback" where
  "logging name cb =
     \<lparr>on_train_start = logged name OnTrainStart (on_train_start cb),
      on_train_end = logged name OnTrainEnd (on_train_end cb),
      on_infer_start = logged name OnInferStart (on_infer_start cb),
      on_infer_end = logged name OnInferEnd (on_infer_end cb),
      on_epoch_start = logged name OnEpochStart (on_epoch_start cb),
      on_epoch_end = logged name OnEpochEnd (on_epoch_end cb),
      on_loader_start = logged name OnLoaderStart (on_loader_start cb),
      on_loader_end = logged name OnLoaderEnd (on_loader_end cb),
      on_batch_start = logged name OnBatchStart (on_batch_start cb),
      on_batch_end = logged name OnBatchEnd (on_batch_end cb)\<rparr>"

text \<open>
  The calls that the composition of \<open>cbs\<close> makes when its hook \<open>h\<close> is called with
  \<open>state\<close>: the list the wrapped callbacks have written when the composition returns or
  raises.
\<close>

definition invocations ::
  "hook \<Rightarrow> (string \<times> ('e, 'st) Callback) list \<Rightarrow> 'st \<Rightarrow> (string \<times> hook \<times> 'st) list" where
  "invocations h cbs state =
     snd (state_of (CallbackCompose_method h
       \<lparr>callbacks = map (\<lambda>(key, value). (key, logging key value)) cbs\<rparr> (state, [])))"

subsection \<open>Functions used in the proofs\<close>

text \<open>The calls of a composition, by recursion over its callbacks.\<close>

fun calls_of ::
  "hook \<Rightarrow> (string \<times> ('e, 'st) Callback) list \<Rightarrow> 'st \<Rightarrow> (string \<times> hook \<times> 'st) list" where
  "calls_of h [] state = []"
| "calls_of h ((key, value) # items) state =
     (key, h, state) #
     (case hook_method h value state of
        Done state' \<Rightarrow> calls_of h items state'
      | Raised e state' \<Rightarrow> [])"

text \<open>
  The pairs that the loop of \<open>MultiMetricCallback\<close> stores before the extraction raises
  for the first time, and the exception of that raise.
\<close>

fun stored :: "('m \<Rightarrow> 'x + 's) \<Rightarrow> ('a \<times> 'm) list \<Rightarrow> ('a \<times> 's) list" where
  "stored get_val [] = []"
| "stored get_val ((arg, metric) # pairs) =
     (case get_val metric of Inl x \<Rightarrow> [] | Inr val \<Rightarrow> (arg, val) # stored get_val pairs)"

fun first_raise :: "('m \<Rightarrow> 'x + 's) \<Rightarrow> ('a \<times> 'm) list \<Rightarrow> 'x option" where
  "first_raise get_val [] = None"
| "first_raise get_val ((arg, metric) # pairs) =
     (case get_val metric of Inl x \<Rightarrow> Some x | Inr val \<Rightarrow> first_raise get_val pairs)"

text \<open>The dictionary that a list of stores amounts to: a later store wins.\<close>

definition stores :: "('a \<Rightarrow> string) \<Rightarrow> string \<Rightarrow> ('a \<times> 's) list \<Rightarrow> (string \<rightharpoonup> 's)" where
  "stores format_arg pre avs =
     map_of (rev (map (\<lambda>(arg, val). (metric_key format_arg pre arg, val)) avs))"

subsection \<open>Concrete callbacks and states\<close>

text \<open>
  A \<open>MetricCallback\<close> with prefix \<open>acc\<close>, the default keys and a metric function that
  always returns 0.75.
\<close>

definition acc_callback ::
  "(nat \<Rightarrow> nat \<Rightarrow> (string \<rightharpoonup> nat) \<Rightarrow> utils_error + real metric, nat) MetricCallback" where
  "acc_callback =
     MetricCallback_init ''acc'' (\<lambda>targets outputs params. Inr (Bare 0.75)) None None Map.empty"

text \<open>
  A \<open>MultiMetricCallback\<close> with prefix \<open>p\<close>, the default keys, the labels \<open>args\<close> and a
  metric function that always returns \<open>results\<close>.
\<close>

definition p_callback ::
  "string list \<Rightarrow> real metric list \<Rightarrow>
   (nat \<Rightarrow> nat \<Rightarrow> string list \<Rightarrow> (string \<rightharpoonup> nat) \<Rightarrow> utils_error + real metric list, nat, string)
     MultiMetricCallback" where
  "p_callback args results =
     MultiMetricCallback_init ''p'' (\<lambda>targets outputs args params. Inr results) args None None
       Map.empty"

text \<open>A state with both default keys and two metrics already in \<open>batch_metrics\<close>.\<close>

definition batch_state :: "(nat, real) RunState" where
  "batch_state =
     \<lparr>input = [''targets'' \<mapsto> 1], output = [''logits'' \<mapsto> 2],
      batch_metrics = [''acc'' \<mapsto> 0.1, ''loss'' \<mapsto> 2]\<rparr>"

text \<open>A state with neither key, and one with the output key only.\<close>

definition empty_state :: "(nat, real) RunState" where
  "empty_state = \<lparr>input = Map.empty, output = Map.empty, batch_metrics = [''loss'' \<mapsto> 2]\<rparr>"

definition outputs_only_state :: "(nat, real) RunState" where
  "outputs_only_state =
     \<lparr>input = Map.empty, output = [''logits'' \<mapsto> 2], batch_metrics = [''loss'' \<mapsto> 2]\<rparr>"

text \<open>Two compositions: one whose first callback raises, one whose callbacks all return.\<close>

definition failing_callbacks ::
  "(string \<times> (utils_error error, (nat, real) RunState) Callback) list" where
  "failing_callbacks =
     [(''metric'', MetricCallback_object get_val_from_metric acc_callback),
      (''other'', Callback_default)]"

definition batch_callbacks ::
  "(string \<times> (utils_error error, (nat, real) RunState) Callback) list" where
  "batch_callbacks =
     [(''acc'', MetricCallback_object get_val_from_metric acc_callback),
      (''p'', MultiMetricCallback_object get_val_from_metric (\<lambda>arg. arg)
         (p_callback [''a'', ''b''] [Bare 1, Bare 2]))]"

section \<open>The default hooks do nothing\<close>

text \<open>
  Claim C7. Each of the ten hooks of an instance of the base class \<open>Callback\<close>, called with
  any state, returns normally (it does not raise) and the state after the call is the
  state before it: \<open>input\<close>, \<open>output\<close>, \<open>batch_metrics\<close> and every other attribute.
\<close>

theorem Callback_hooks_noop:
  "hook_method h Callback_default state = Done state"
  by (cases h) (simp_all add: Callback_default_def pass_def)

section \<open>MetricCallback\<close>

lemma acc_callback_simps [simp]:
  "prefix acc_callback = ''acc''"
  "input_key acc_callback = ''targets''"
  "output_key acc_callback = ''logits''"
  "metric_fn acc_callback targets outputs params = Inr (Bare 0.75)"
  by (simp_all add: acc_callback_def MetricCallback_init_def)

lemma batch_state_simps [simp]:
  "input batch_state ''targets'' = Some 1"
  "output batch_state ''logits'' = Some 2"
  "batch_metrics batch_state = [''acc'' \<mapsto> 0.1, ''loss'' \<mapsto> 2]"
  by (simp_all add: batch_state_def)

text \<open>
  Claim C2. When the output key is in \<open>state.output\<close> and the input key is in
  \<open>state.input\<close>, \<open>on_batch_end\<close> of a \<open>MetricCallback\<close> calls the metric function on
  the targets, the outputs and the extra parameters, extracts a value from the metric it
  returns, and stores the value in \<open>state.batch_metrics\<close> under the prefix, replacing
  whatever was there; nothing else of the state changes. (The metric function and the
  extraction are taken to return: \<open>metric\<close> and \<open>val\<close> are what they return.)
\<close>

theorem MetricCallback_stores_metric:
  assumes "output state (output_key self) = Some outputs"
    and "input state (input_key self) = Some targets"
    and "metric_fn self targets outputs (metric_params self) = Inr metric"
    and "get_val metric = Inr val"
  shows "MetricCallback_on_batch_end get_val self state =
           Done (state\<lparr>batch_metrics := (batch_metrics state)(prefix self \<mapsto> val)\<rparr>)
         \<and> batch_metrics (state_of (MetricCallback_on_batch_end get_val self state)) (prefix self)
             = Some val"
  using assms by (simp add: MetricCallback_on_batch_end_def)

text \<open>
  With the prefix \<open>acc\<close> and a metric function that always returns 0.75, the entry
  \<open>acc\<close>, which was 0.1, is 0.75 afterwards, and the entry \<open>loss\<close> is as before.
\<close>

theorem MetricCallback_stores_metric_witness:
  "raised (MetricCallback_on_batch_end get_val_from_metric acc_callback batch_state) = None
   \<and> batch_metrics batch_state ''acc'' = Some 0.1
   \<and> batch_metrics (state_of (MetricCallback_on_batch_end get_val_from_metric acc_callback
         batch_state)) ''acc'' = Some 0.75
   \<and> batch_metrics (state_of (MetricCallback_on_batch_end get_val_from_metric acc_callback
         batch_state)) ''loss'' = Some 2"
proof -
  have 1: "output batch_state (output_key acc_callback) = Some 2" by simp
  have 2: "input batch_state (input_key acc_callback) = Some 1" by simp
  have 3: "metric_fn acc_callback 1 2 (metric_params acc_callback) = Inr (Bare 0.75)" by simp
  have 4: "get_val_from_metric (Bare (0.75::real)) = Inr 0.75" by simp
  from MetricCallback_stores_metric [where get_val = get_val_from_metric, OF 1 2 3 4]
  show ?thesis by simp
qed

text \<open>
  Claim C4. When the output key is not in \<open>state.output\<close>, or the input key is not in
  \<open>state.input\<close>, \<open>on_batch_end\<close> of a \<open>MetricCallback\<close> raises \<open>KeyError\<close> (for the
  output key when that one is missing, as it is read first, and for the input key
  otherwise), and the state is the one before the call: nothing was written to
  \<open>batch_metrics\<close>.
\<close>

theorem MetricCallback_missing_key:
  assumes "output state (output_key self) = None \<or> input state (input_key self) = None"
  shows "MetricCallback_on_batch_end get_val self state =
           Raised (KeyError (if output state (output_key self) = None then output_key self
                             else input_key self)) state"
  using assms by (auto simp: MetricCallback_on_batch_end_def)

theorem MetricCallback_missing_key_witness:
  "output empty_state (output_key acc_callback) = None
   \<and> MetricCallback_on_batch_end get_val_from_metric acc_callback empty_state
       = Raised (KeyError ''logits'') empty_state
   \<and> input outputs_only_state (input_key acc_callback) = None
   \<and> MetricCallback_on_batch_end get_val_from_metric acc_callback outputs_only_state
       = Raised (KeyError ''targets'') outputs_only_state"
proof -
  have 1: "output empty_state (output_key acc_callback) = None
      \<or> input empty_state (input_key acc_callback) = None"
    by (simp add: empty_state_def)
  have 2: "output outputs_only_state (output_key acc_callback) = None
      \<or> input outputs_only_state (input_key acc_callback) = None"
    by (simp add: outputs_only_state_def)
  from MetricCallback_missing_key [where get_val = get_val_from_metric, OF 1]
    MetricCallback_missing_key [where get_val = get_val_from_metric, OF 2]
  show ?thesis
    by (simp add: empty_state_def outputs_only_state_def)
qed

section \<open>The loop of MultiMetricCallback\<close>

lemma stores_Nil: "stores fa pre [] = Map.empty"
  by (simp add: stores_def)

lemma stores_Cons:
  "m ++ stores fa pre ((a, v) # avs) = m(metric_key fa pre a \<mapsto> v) ++ stores fa pre avs"
  by (simp add: stores_def map_add_def fun_eq_iff split: option.splits)

text \<open>
  The loop adds to the dictionary the stores made before the first raise, and raises
  what the extraction raised, if it did.
\<close>

lemma store_metrics_char:
  "store_metrics get_val fa pre pairs state =
     (case first_raise get_val pairs of
        None \<Rightarrow> Done (state\<lparr>batch_metrics :=
                 batch_metrics state ++ stores fa pre (stored get_val pairs)\<rparr>)
      | Some x \<Rightarrow> Raised (External x) (state\<lparr>batch_metrics :=
                 batch_metrics state ++ stores fa pre (stored get_val pairs)\<rparr>))"
proof (induction pairs arbitrary: state)
  case Nil
  show ?case by (simp add: stores_Nil)
next
  case (Cons p pairs)
  obtain a m where p: "p = (a, m)" by (cases p)
  show ?case
  proof (cases "get_val m")
    case (Inl x)
    then show ?thesis by (simp add: p stores_Nil)
  next
    case (Inr v)
    then show ?thesis by (simp add: p Cons.IH stores_Cons split: option.split)
  qed
qed

lemma stored_all:
  "map get_val (map snd pairs) = map Inr vals \<Longrightarrow>
   stored get_val pairs = zip (map fst pairs) vals \<and> first_raise get_val pairs = None"
proof (induction pairs arbitrary: vals)
  case Nil
  then show ?case by simp
next
  case (Cons p pairs)
  obtain a m where p: "p = (a, m)" by (cases p)
  from Cons.prems obtain v vs where vals: "vals = v # vs" and v: "get_val m = Inr v"
    and vs: "map get_val (map snd pairs) = map Inr vs"
    by (cases vals) (auto simp: p)
  from Cons.IH [OF vs] show ?case by (simp add: p vals v)
qed

lemma store_metrics_input [simp]:
  "input (state_of (store_metrics get_val fa pre pairs state)) = input state"
  by (simp add: store_metrics_char split: option.split)

lemma store_metrics_output [simp]:
  "output (state_of (store_metrics get_val fa pre pairs state)) = output state"
  by (simp add: store_metrics_char split: option.split)

lemma store_metrics_more [simp]:
  "RunState.more (state_of (store_metrics get_val fa pre pairs state)) = RunState.more state"
  by (simp add: store_metrics_char split: option.split)

lemma stores_outside:
  "k \<notin> metric_key fa pre ` fst ` set avs \<Longrightarrow> stores fa pre avs k = None"
  by (force simp: stores_def map_of_eq_None_iff)

lemma stored_subset: "fst ` set (stored get_val pairs) \<subseteq> fst ` set pairs"
proof (induction pairs)
  case Nil
  show ?case by simp
next
  case (Cons p pairs)
  obtain a m where p: "p = (a, m)" by (cases p)
  from Cons.IH show ?case by (auto simp: p split: sum.splits)
qed

lemma store_metrics_outside:
  assumes "k \<notin> metric_key fa pre ` fst ` set pairs"
  shows "batch_metrics (state_of (store_metrics get_val fa pre pairs state)) k
           = batch_metrics state k"
proof -
  from assms stored_subset [of get_val pairs]
  have "k \<notin> metric_key fa pre ` fst ` set (stored get_val pairs)" by blast
  then have "stores fa pre (stored get_val pairs) k = None" by (rule stores_outside)
  then show ?thesis
    by (simp add: store_metrics_char map_add_def split: option.split)
qed

lemma map_add_twice: "(m ++ n) ++ n = m ++ n"
  by (simp add: map_add_def fun_eq_iff split: option.split)

lemma store_metrics_idempotent:
  "store_metrics get_val fa pre pairs (state_of (store_metrics get_val fa pre pairs state))
     = store_metrics get_val fa pre pairs state"
  by (simp add: store_metrics_char map_add_twice split: option.split)

text \<open>In a list of stores under the keys \<open>ks\<close>, the last store under a key is the one kept.\<close>

lemma map_of_rev_zip_last:
  "length ks = length vs \<Longrightarrow> i < length ks \<Longrightarrow>
   (\<forall>j. i < j \<and> j < length ks \<longrightarrow> ks ! j \<noteq> ks ! i) \<Longrightarrow>
   map_of (rev (zip ks vs)) (ks ! i) = Some (vs ! i)"
proof (induction ks arbitrary: vs i)
  case Nil
  then show ?case by simp
next
  case (Cons k ks)
  then obtain v vs' where vs: "vs = v # vs'" by (cases vs) auto
  show ?case
  proof (cases i)
    case 0
    have "k \<notin> set ks"
    proof
      assume "k \<in> set ks"
      then obtain j where "j < length ks" "ks ! j = k" by (auto simp: in_set_conv_nth)
      with Cons.prems(3) [rule_format, of "Suc j"] 0 show False by simp
    qed
    then have "map_of (rev (zip ks vs')) k = None"
      by (auto simp: map_of_eq_None_iff dest: set_zip_leftD)
    then show ?thesis by (simp add: vs 0 map_add_def)
  next
    case (Suc i')
    have "\<forall>j. i' < j \<and> j < length ks \<longrightarrow> ks ! j \<noteq> ks ! i'"
    proof (intro allI impI)
      fix j assume "i' < j \<and> j < length ks"
      with Cons.prems(3) [rule_format, of "Suc j"] Suc show "ks ! j \<noteq> ks ! i'" by simp
    qed
    with Cons.IH [of vs' i'] Cons.prems(1,2) Suc vs
    have "map_of (rev (zip ks vs')) (ks ! i') = Some (vs' ! i')" by simp
    then show ?thesis by (simp add: vs Suc map_add_def)
  qed
qed

lemma stores_zip:
  "stores fa pre (zip args vals) = map_of (rev (zip (map (metric_key fa pre) args) vals))"
  by (simp add: stores_def zip_map1 rev_map)

lemma zip_take_left: "length vs \<le> n \<Longrightarrow> zip (take n xs) vs = zip xs vs"
proof (induction xs arbitrary: n vs)
  case Nil
  show ?case by simp
next
  case (Cons x xs)
  show ?case
  proof (cases vs)
    case Nil
    then show ?thesis by simp
  next
    case (Cons v vs')
    with Cons.prems obtain n' where n: "n = Suc n'" and "length vs' \<le> n'"
      by (cases n) auto
    with Cons.IH [of vs' n'] Cons show ?thesis by simp
  qed
qed

lemma stored_zip:
  assumes "map get_val (take (length args) metrics) = map Inr vals"
  shows "stored get_val (zip args metrics) = zip args vals
         \<and> first_raise get_val (zip args metrics) = None"
proof -
  have "length (take (length args) metrics) = length vals"
    using assms by (metis length_map)
  then have l: "length vals \<le> length metrics" by simp
  have "map get_val (map snd (zip args metrics)) = map Inr vals"
    using assms by (cases "length args \<le> length metrics") (simp_all add: map_snd_zip_take)
  from stored_all [OF this]
  have "stored get_val (zip args metrics) = zip (map fst (zip args metrics)) vals"
    and r: "first_raise get_val (zip args metrics) = None"
    by simp_all
  moreover have "map fst (zip args metrics) = take (length metrics) args"
    by (cases "length metrics \<le> length args") (simp_all add: map_fst_zip_take)
  ultimately show ?thesis using zip_take_left [OF l, of args] by simp
qed

text \<open>
  When the extraction returns for every metric that is paired with a label, the hook
  returns, and the dictionary has the stores of the pairs added, a later one winning.
\<close>

lemma MultiMetricCallback_stores:
  assumes "output state (output_key self) = Some outputs"
    and "input state (input_key self) = Some targets"
    and "metric_fn self targets outputs (list_args self) (metric_params self) = Inr metrics"
    and "map get_val (take (length (list_args self)) metrics) = map Inr vals"
  shows "MultiMetricCallback_on_batch_end get_val fa self state =
           Done (state\<lparr>batch_metrics := batch_metrics state ++
             map_of (rev (zip (map (metric_key fa (prefix self)) (list_args self)) vals))\<rparr>)"
  using assms(1-3) stored_zip [OF assms(4)]
  by (simp add: MultiMetricCallback_on_batch_end_def store_metrics_char stores_zip)

lemma p_callback_simps [simp]:
  "prefix (p_callback args results) = ''p''"
  "list_args (p_callback args results) = args"
  "input_key (p_callback args results) = ''targets''"
  "output_key (p_callback args results) = ''logits''"
  "metric_fn (p_callback args results) targets outputs labels params = Inr results"
  by (simp_all add: p_callback_def MultiMetricCallback_init_def)

section \<open>MultiMetricCallback\<close>

text \<open>
  Claim C3. When both keys are present, the metric function returns as many metrics as
  there are labels in \<open>list_args\<close>, and the extraction returns for each of them (\<open>vals\<close>
  are the values extracted, in order), \<open>on_batch_end\<close> of a \<open>MultiMetricCallback\<close>
  returns normally and has paired labels and results by position: the entry under the key
  \<open>prefix_arg\<close> of the label at position \<open>i\<close> is the value at position \<open>i\<close> (for the
  last position that composes to that key, when labels repeat), and every entry whose key
  is not composed from a label is as it was before the call.
\<close>

theorem MultiMetricCallback_pairs_by_position:
  assumes "output state (output_key self) = Some outputs"
    and "input state (input_key self) = Some targets"
    and "metric_fn self targets outputs (list_args self) (metric_params self) = Inr metrics"
    and "length metrics = length (list_args self)"
    and "map get_val metrics = map Inr vals"
  shows "raised (MultiMetricCallback_on_batch_end get_val fa self state) = None
    \<and> (\<forall>i<length (list_args self).
          (\<forall>j. i < j \<and> j < length (list_args self) \<longrightarrow>
             metric_key fa (prefix self) (list_args self ! j)
               \<noteq> metric_key fa (prefix self) (list_args self ! i)) \<longrightarrow>
          batch_metrics (state_of (MultiMetricCallback_on_batch_end get_val fa self state))
            (metric_key fa (prefix self) (list_args self ! i)) = Some (vals ! i))
    \<and> (\<forall>k. k \<notin> metric_key fa (prefix self) ` set (list_args self) \<longrightarrow>
          batch_metrics (state_of (MultiMetricCallback_on_batch_end get_val fa self state)) k
            = batch_metrics state k)"
proof -
  let ?ks = "map (metric_key fa (prefix self)) (list_args self)"
  have t: "map get_val (take (length (list_args self)) metrics) = map Inr vals"
    using assms(4,5) by simp
  have l: "length ?ks = length vals"
    using assms(4) arg_cong [OF assms(5), of length] by simp
  note R = MultiMetricCallback_stores [OF assms(1-3) t, of fa]
  have "map_of (rev (zip ?ks vals)) (?ks ! i) = Some (vals ! i)"
    if "i < length (list_args self)"
      and "\<forall>j. i < j \<and> j < length (list_args self) \<longrightarrow>
             metric_key fa (prefix self) (list_args self ! j)
               \<noteq> metric_key fa (prefix self) (list_args self ! i)" for i
    using that by (intro map_of_rev_zip_last [OF l]) auto
  moreover have "map_of (rev (zip ?ks vals)) k = None"
    if "k \<notin> metric_key fa (prefix self) ` set (list_args self)" for k
    using that by (auto simp: map_of_eq_None_iff dest!: set_zip_leftD)
  ultimately show ?thesis
    by (simp add: R map_add_def)
qed

text \<open>
  With the prefix \<open>p\<close>, the labels \<open>a\<close> and \<open>b\<close> and the results 1 and 2, the entries
  \<open>p_a\<close> and \<open>p_b\<close> are 1 and 2 afterwards, and the entry \<open>acc\<close> is as before.
\<close>

theorem MultiMetricCallback_pairs_by_position_witness:
  "raised (MultiMetricCallback_on_batch_end get_val_from_metric (\<lambda>arg. arg)
      (p_callback [''a'', ''b''] [Bare 1, Bare 2]) batch_state) = None
   \<and> batch_metrics (state_of (MultiMetricCallback_on_batch_end get_val_from_metric (\<lambda>arg. arg)
        (p_callback [''a'', ''b''] [Bare 1, Bare 2]) batch_state)) ''p_a'' = Some 1
   \<and> batch_metrics (state_of (MultiMetricCallback_on_batch_end get_val_from_metric (\<lambda>arg. arg)
        (p_callback [''a'', ''b''] [Bare 1, Bare 2]) batch_state)) ''p_b'' = Some 2
   \<and> batch_metrics (state_of (MultiMetricCallback_on_batch_end get_val_from_metric (\<lambda>arg. arg)
        (p_callback [''a'', ''b''] [Bare 1, Bare 2]) batch_state)) ''acc'' = Some 0.1"
proof -
  let ?self = "p_callback [''a'', ''b''] [Bare 1, Bare 2]"
  have 1: "output batch_state (output_key ?self) = Some 2" by simp
  have 2: "input batch_state (input_key ?self) = Some 1" by simp
  have 3: "metric_fn ?self 1 2 (list_args ?self) (metric_params ?self) = Inr [Bare 1, Bare 2]"
    by simp
  have 4: "length [Bare 1, Bare (2::real)] = length (list_args ?self)" by simp
  have 5: "map get_val_from_metric [Bare 1, Bare (2::real)] = map Inr [1, 2]" by simp
  note T = MultiMetricCallback_pairs_by_position
    [where get_val = get_val_from_metric and fa = "\<lambda>arg. arg", OF 1 2 3 4 5]
  let ?R = "MultiMetricCallback_on_batch_end get_val_from_metric (\<lambda>arg. arg) ?self batch_state"
  let ?key = "\<lambda>i. metric_key (\<lambda>arg. arg) (prefix ?self) (list_args ?self ! i)"
  from T have r: "raised ?R = None" by simp
  from T have pos: "batch_metrics (state_of ?R) (?key i) = Some ([1, 2] ! i)"
    if "i < length (list_args ?self)"
      and "\<forall>j. i < j \<and> j < length (list_args ?self) \<longrightarrow> ?key j \<noteq> ?key i" for i
    using that by blast
  from T have out: "batch_metrics (state_of ?R) k = batch_metrics batch_state k"
    if "k \<notin> metric_key (\<lambda>arg. arg) (prefix ?self) ` set (list_args ?self)" for k
    using that by blast
  have a0: "0 < length (list_args ?self)" by simp
  have a1: "\<forall>j. 0 < j \<and> j < length (list_args ?self) \<longrightarrow> ?key j \<noteq> ?key 0"
    by (auto simp: metric_key_def less_Suc_eq)
  have b0: "1 < length (list_args ?self)" by simp
  have b1: "\<forall>j. 1 < j \<and> j < length (list_args ?self) \<longrightarrow> ?key j \<noteq> ?key 1"
    by (auto simp: metric_key_def less_Suc_eq)
  have c0: "''acc'' \<notin> metric_key (\<lambda>arg. arg) (prefix ?self) ` set (list_args ?self)"
    by (simp add: metric_key_def)
  from pos [OF a0 a1] have a: "batch_metrics (state_of ?R) ''p_a'' = Some 1"
    by (simp add: metric_key_def)
  from pos [OF b0 b1] have b: "batch_metrics (state_of ?R) ''p_b'' = Some 2"
    by (simp add: metric_key_def)
  from out [OF c0] have c: "batch_metrics (state_of ?R) ''acc'' = Some 0.1"
    by simp
  from r a b c show ?thesis by simp
qed

text \<open>
  Claim C6. When two positions \<open>i < j\<close> of \<open>list_args\<close> compose to the same key (as two
  equal labels do) and no later position composes to it, \<open>on_batch_end\<close> returns normally
  and the entry under that key is the value of position \<open>j\<close>: the later store has replaced
  the earlier one, and nothing is raised for the repetition.
\<close>

theorem MultiMetricCallback_last_write_wins:
  assumes "output state (output_key self) = Some outputs"
    and "input state (input_key self) = Some targets"
    and "metric_fn self targets outputs (list_args self) (metric_params self) = Inr metrics"
    and "length metrics = length (list_args self)"
    and "map get_val metrics = map Inr vals"
    and "i < j" and "j < length (list_args self)"
    and "metric_key fa (prefix self) (list_args self ! i)
           = metric_key fa (prefix self) (list_args self ! j)"
    and "\<forall>l. j < l \<and> l < length (list_args self) \<longrightarrow>
           metric_key fa (prefix self) (list_args self ! l)
             \<noteq> metric_key fa (prefix self) (list_args self ! j)"
  shows "raised (MultiMetricCallback_on_batch_end get_val fa self state) = None
    \<and> batch_metrics (state_of (MultiMetricCallback_on_batch_end get_val fa self state))
         (metric_key fa (prefix self) (list_args self ! i)) = Some (vals ! j)"
proof -
  let ?ks = "map (metric_key fa (prefix self)) (list_args self)"
  have t: "map get_val (take (length (list_args self)) metrics) = map Inr vals"
    using assms(4,5) by simp
  have l: "length ?ks = length vals"
    using assms(4) arg_cong [OF assms(5), of length] by simp
  note R = MultiMetricCallback_stores [OF assms(1-3) t, of fa]
  have "map_of (rev (zip ?ks vals)) (?ks ! j) = Some (vals ! j)"
    using assms(7,9) by (intro map_of_rev_zip_last [OF l]) auto
  then show ?thesis
    using assms(6-8) by (simp add: R map_add_def)
qed

text \<open>
  With the prefix \<open>p\<close>, the labels \<open>a\<close> and \<open>a\<close> and the results 1 and 2, the entry
  \<open>p_a\<close> is 2 afterwards.
\<close>

theorem MultiMetricCallback_last_write_wins_witness:
  "(0::nat) < 1
   \<and> [''a'', ''a''] ! 0 = [''a'', ''a''] ! 1
   \<and> raised (MultiMetricCallback_on_batch_end get_val_from_metric (\<lambda>arg. arg)
        (p_callback [''a'', ''a''] [Bare 1, Bare 2]) batch_state) = None
   \<and> batch_metrics (state_of (MultiMetricCallback_on_batch_end get_val_from_metric (\<lambda>arg. arg)
        (p_callback [''a'', ''a''] [Bare 1, Bare 2]) batch_state)) ''p_a'' = Some 2"
proof -
  let ?self = "p_callback [''a'', ''a''] [Bare 1, Bare 2]"
  let ?key = "\<lambda>i. metric_key (\<lambda>arg. arg) (prefix ?self) (list_args ?self ! i)"
  have 1: "output batch_state (output_key ?self) = Some 2" by simp
  have 2: "input batch_state (input_key ?self) = Some 1" by simp
  have 3: "metric_fn ?self 1 2 (list_args ?self) (metric_params ?self) = Inr [Bare 1, Bare 2]"
    by simp
  have 4: "length [Bare 1, Bare (2::real)] = length (list_args ?self)" by simp
  have 5: "map get_val_from_metric [Bare 1, Bare (2::real)] = map Inr [1, 2]" by simp
  have 6: "(0::nat) < 1" by simp
  have 7: "1 < length (list_args ?self)" by simp
  have 8: "?key 0 = ?key 1" by simp
  have 9: "\<forall>l. 1 < l \<and> l < length (list_args ?self) \<longrightarrow> ?key l \<noteq> ?key 1"
    by (auto simp: less_Suc_eq)
  from MultiMetricCallback_last_write_wins
    [where get_val = get_val_from_metric and fa = "\<lambda>arg. arg", OF 1 2 3 4 5 6 7 8 9]
  show ?thesis by (simp add: metric_key_def)
qed

text \<open>
  Claim C5, as the code has it. When the metric function returns a sequence whose length
  differs from the number of labels, \<open>on_batch_end\<close> raises nothing for it: \<open>zip\<close> pairs
  labels and results by position up to the end of the shorter of the two. When the
  extraction returns for the metrics that are paired (\<open>vals\<close> are the values extracted),
  the hook returns normally, exactly \<open>min (len list_args) (len metrics)\<close> pairs are
  stored, each key composed from one of the first labels holds the value of its (last)
  position, and every entry whose key is not composed from one of those labels is as it
  was before the call.
\<close>

theorem MultiMetricCallback_truncates:
  assumes "output state (output_key self) = Some outputs"
    and "input state (input_key self) = Some targets"
    and "metric_fn self targets outputs (list_args self) (metric_params self) = Inr metrics"
    and "map get_val (take (length (list_args self)) metrics) = map Inr vals"
  shows "raised (MultiMetricCallback_on_batch_end get_val fa self state) = None
    \<and> length vals = min (length (list_args self)) (length metrics)
    \<and> (\<forall>i<length vals.
          (\<forall>j. i < j \<and> j < length vals \<longrightarrow>
             metric_key fa (prefix self) (list_args self ! j)
               \<noteq> metric_key fa (prefix self) (list_args self ! i)) \<longrightarrow>
          batch_metrics (state_of (MultiMetricCallback_on_batch_end get_val fa self state))
            (metric_key fa (prefix self) (list_args self ! i)) = Some (vals ! i))
    \<and> (\<forall>k. k \<notin> metric_key fa (prefix self) ` set (take (length metrics) (list_args self)) \<longrightarrow>
          batch_metrics (state_of (MultiMetricCallback_on_batch_end get_val fa self state)) k
            = batch_metrics state k)"
proof -
  let ?args = "take (length metrics) (list_args self)"
  let ?ks = "map (metric_key fa (prefix self)) ?args"
  have "length (take (length (list_args self)) metrics) = length vals"
    using assms(4) by (metis length_map)
  then have l: "length vals = min (length (list_args self)) (length metrics)"
    by (simp add: min.commute)
  then have lk: "length ?ks = length vals" by (simp add: min.commute)
  have z: "zip (map (metric_key fa (prefix self)) (list_args self)) vals = zip ?ks vals"
    using l by (simp add: take_map [symmetric] zip_take_left)
  note R = MultiMetricCallback_stores [OF assms, of fa]
  have "map_of (rev (zip ?ks vals)) (metric_key fa (prefix self) (list_args self ! i))
          = Some (vals ! i)"
    if "i < length vals"
      and "\<forall>j. i < j \<and> j < length vals \<longrightarrow>
             metric_key fa (prefix self) (list_args self ! j)
               \<noteq> metric_key fa (prefix self) (list_args self ! i)" for i
  proof -
    have "map_of (rev (zip ?ks vals)) (?ks ! i) = Some (vals ! i)"
      using that l by (intro map_of_rev_zip_last [OF lk]) auto
    then show ?thesis using that(1) l by simp
  qed
  moreover have "map_of (rev (zip ?ks vals)) k = None"
    if "k \<notin> metric_key fa (prefix self) ` set ?args" for k
    using that by (auto simp: map_of_eq_None_iff dest!: set_zip_leftD)
  ultimately show ?thesis
    by (simp add: R z l map_add_def)
qed

text \<open>
  With the labels \<open>a\<close> and \<open>b\<close> and the single result 1: nothing is raised, one pair is
  stored, \<open>p_a\<close> is 1 and there is no entry \<open>p_b\<close>.
\<close>

theorem MultiMetricCallback_truncates_witness:
  "raised (MultiMetricCallback_on_batch_end get_val_from_metric (\<lambda>arg. arg)
      (p_callback [''a'', ''b''] [Bare 1]) batch_state) = None
   \<and> length [1::real] = min (length [''a'', ''b'']) (length [Bare (1::real)])
   \<and> batch_metrics (state_of (MultiMetricCallback_on_batch_end get_val_from_metric (\<lambda>arg. arg)
        (p_callback [''a'', ''b''] [Bare 1]) batch_state)) ''p_a'' = Some 1
   \<and> batch_metrics (state_of (MultiMetricCallback_on_batch_end get_val_from_metric (\<lambda>arg. arg)
        (p_callback [''a'', ''b''] [Bare 1]) batch_state)) ''p_b'' = None"
proof -
  let ?self = "p_callback [''a'', ''b''] [Bare 1]"
  let ?R = "MultiMetricCallback_on_batch_end get_val_from_metric (\<lambda>arg. arg) ?self batch_state"
  let ?key = "\<lambda>i. metric_key (\<lambda>arg. arg) (prefix ?self) (list_args ?self ! i)"
  have 1: "output batch_state (output_key ?self) = Some 2" by simp
  have 2: "input batch_state (input_key ?self) = Some 1" by simp
  have 3: "metric_fn ?self 1 2 (list_args ?self) (metric_params ?self) = Inr [Bare 1]"
    by simp
  have 4: "map get_val_from_metric (take (length (list_args ?self)) [Bare (1::real)])
      = map Inr [1]" by simp
  note T = MultiMetricCallback_truncates
    [where get_val = get_val_from_metric and fa = "\<lambda>arg. arg", OF 1 2 3 4]
  from T have r: "raised ?R = None" by simp
  from T have pos: "batch_metrics (state_of ?R) (?key i) = Some ([1] ! i)"
    if "i < length [1::real]"
      and "\<forall>j. i < j \<and> j < length [1::real] \<longrightarrow> ?key j \<noteq> ?key i" for i
    using that by blast
  from T have out: "batch_metrics (state_of ?R) k = batch_metrics batch_state k"
    if "k \<notin> metric_key (\<lambda>arg. arg) (prefix ?self) `
           set (take (length [Bare (1::real)]) (list_args ?self))" for k
    using that by blast
  have a0: "0 < length [1::real]" by simp
  have a1: "\<forall>j. 0 < j \<and> j < length [1::real] \<longrightarrow> ?key j \<noteq> ?key 0" by auto
  have b0: "''p_b'' \<notin> metric_key (\<lambda>arg. arg) (prefix ?self) `
      set (take (length [Bare (1::real)]) (list_args ?self))"
    by (simp add: metric_key_def)
  from pos [OF a0 a1] have a: "batch_metrics (state_of ?R) ''p_a'' = Some 1"
    by (simp add: metric_key_def)
  from out [OF b0] have b: "batch_metrics (state_of ?R) ''p_b'' = None"
    by simp
  from r a b show ?thesis by simp
qed

text \<open>
  The claim as stated (a length that differs from the number of labels makes the hook
  fail with a count mismatch) is false: two labels and one result, and the hook returns
  normally with one entry stored.
\<close>

theorem MultiMetricCallback_count_mismatch_counterexample:
  "length [Bare (1::real)] \<noteq> length (list_args (p_callback [''a'', ''b''] [Bare 1]))
   \<and> raised (MultiMetricCallback_on_batch_end get_val_from_metric (\<lambda>arg. arg)
        (p_callback [''a'', ''b''] [Bare 1]) batch_state) = None
   \<and> batch_metrics (state_of (MultiMetricCallback_on_batch_end get_val_from_metric (\<lambda>arg. arg)
        (p_callback [''a'', ''b''] [Bare 1]) batch_state)) ''p_a'' = Some 1
   \<and> batch_metrics (state_of (MultiMetricCallback_on_batch_end get_val_from_metric (\<lambda>arg. arg)
        (p_callback [''a'', ''b''] [Bare 1]) batch_state)) ''p_b'' = None"
  by (simp add: MultiMetricCallback_on_batch_end_def metric_key_def)

text \<open>
  Claim C10. With an empty \<open>list_args\<close> and both keys present, \<open>on_batch_end\<close> of a
  \<open>MultiMetricCallback\<close> still reads both keys and calls the metric function on the
  targets, the outputs, the empty list and the extra parameters (what the function raises
  escapes from the hook), and it stores nothing: the state after the call is the state
  before it, whatever the function returns.
\<close>

theorem MultiMetricCallback_empty_list_args:
  assumes "output state (output_key self) = Some outputs"
    and "input state (input_key self) = Some targets"
    and "list_args self = []"
  shows "MultiMetricCallback_on_batch_end get_val format_arg self state =
           (case metric_fn self targets outputs [] (metric_params self) of
              Inl x \<Rightarrow> Raised (External x) state
            | Inr metrics \<Rightarrow> Done state)"
  using assms by (simp add: MultiMetricCallback_on_batch_end_def split: sum.split)

theorem MultiMetricCallback_empty_list_args_witness:
  "list_args (p_callback [] [Bare 1, Bare 2]) = []
   \<and> MultiMetricCallback_on_batch_end get_val_from_metric (\<lambda>arg. arg)
        (p_callback [] [Bare 1, Bare 2]) batch_state = Done batch_state"
proof -
  let ?self = "p_callback [] [Bare 1, Bare 2]"
  have 1: "output batch_state (output_key ?self) = Some 2" by simp
  have 2: "input batch_state (input_key ?self) = Some 1" by simp
  have 3: "list_args ?self = []" by simp
  from MultiMetricCallback_empty_list_args
    [where get_val = get_val_from_metric and format_arg = "\<lambda>arg. arg", OF 1 2 3]
  show ?thesis by simp
qed

section \<open>What the metric hooks leave alone\<close>

text \<open>
  Claim C9. When \<open>on_batch_end\<close> of a \<open>MetricCallback\<close> or of a \<open>MultiMetricCallback\<close>
  returns normally, \<open>state.input\<close> and \<open>state.output\<close> are as before the call (the
  metric function is a function of its arguments here, so it does not mutate them), and so
  is every other attribute of the state but \<open>batch_metrics\<close>; in \<open>batch_metrics\<close> only
  the callback's own keys can have changed: the prefix for a \<open>MetricCallback\<close>, the keys
  \<open>prefix_arg\<close> of the labels for a \<open>MultiMetricCallback\<close>.
\<close>

theorem metric_callbacks_frame:
  "(MetricCallback_on_batch_end get_val self state = Done state' \<longrightarrow>
      input state' = input state \<and> output state' = output state
      \<and> RunState.more state' = RunState.more state
      \<and> (\<forall>k. k \<noteq> prefix self \<longrightarrow> batch_metrics state' k = batch_metrics state k))
   \<and> (MultiMetricCallback_on_batch_end get_val format_arg mself state = Done state'' \<longrightarrow>
      input state'' = input state \<and> output state'' = output state
      \<and> RunState.more state'' = RunState.more state
      \<and> (\<forall>k. k \<notin> metric_key format_arg (prefix mself) ` set (list_args mself) \<longrightarrow>
            batch_metrics state'' k = batch_metrics state k))"
proof (intro conjI impI)
  assume "MetricCallback_on_batch_end get_val self state = Done state'"
  then have s: "\<exists>val. state' = state\<lparr>batch_metrics := (batch_metrics state)(prefix self \<mapsto> val)\<rparr>"
    by (auto simp: MetricCallback_on_batch_end_def split: option.splits sum.splits)
  from s show "input state' = input state" by auto
  from s show "output state' = output state" by auto
  from s show "RunState.more state' = RunState.more state" by auto
  from s show "\<forall>k. k \<noteq> prefix self \<longrightarrow> batch_metrics state' k = batch_metrics state k" by auto
next
  assume "MultiMetricCallback_on_batch_end get_val format_arg mself state = Done state''"
  then obtain metrics where
    s: "store_metrics get_val format_arg (prefix mself) (zip (list_args mself) metrics) state
          = Done state''"
    by (auto simp: MultiMetricCallback_on_batch_end_def split: option.splits sum.splits)
  then have e: "state'' = state_of (store_metrics get_val format_arg (prefix mself)
      (zip (list_args mself) metrics) state)" by simp
  show "input state'' = input state" unfolding e by simp
  show "output state'' = output state" unfolding e by simp
  show "RunState.more state'' = RunState.more state" unfolding e by simp
  show "\<forall>k. k \<notin> metric_key format_arg (prefix mself) ` set (list_args mself) \<longrightarrow>
            batch_metrics state'' k = batch_metrics state k"
  proof (intro allI impI)
    fix k assume "k \<notin> metric_key format_arg (prefix mself) ` set (list_args mself)"
    moreover have "fst ` set (zip (list_args mself) metrics) \<subseteq> set (list_args mself)"
      by (auto dest: set_zip_leftD)
    ultimately have "k \<notin> metric_key format_arg (prefix mself) `
        fst ` set (zip (list_args mself) metrics)" by blast
    then show "batch_metrics state'' k = batch_metrics state k"
      unfolding e by (rule store_metrics_outside)
  qed
qed

text \<open>
  Both hooks return on the state with both keys; afterwards \<open>input\<close> and \<open>output\<close> are
  unchanged, \<open>loss\<close> is unchanged by the first and \<open>acc\<close> by the second.
\<close>

theorem metric_callbacks_frame_witness:
  "MetricCallback_on_batch_end get_val_from_metric acc_callback batch_state
     = Done (state_of (MetricCallback_on_batch_end get_val_from_metric acc_callback batch_state))
   \<and> input (state_of (MetricCallback_on_batch_end get_val_from_metric acc_callback batch_state))
       = input batch_state
   \<and> output (state_of (MetricCallback_on_batch_end get_val_from_metric acc_callback batch_state))
       = output batch_state
   \<and> batch_metrics (state_of (MetricCallback_on_batch_end get_val_from_metric acc_callback
         batch_state)) ''loss'' = Some 2
   \<and> MultiMetricCallback_on_batch_end get_val_from_metric (\<lambda>arg. arg)
        (p_callback [''a'', ''b''] [Bare 1, Bare 2]) batch_state
     = Done (state_of (MultiMetricCallback_on_batch_end get_val_from_metric (\<lambda>arg. arg)
        (p_callback [''a'', ''b''] [Bare 1, Bare 2]) batch_state))
   \<and> input (state_of (MultiMetricCallback_on_batch_end get_val_from_metric (\<lambda>arg. arg)
        (p_callback [''a'', ''b''] [Bare 1, Bare 2]) batch_state)) = input batch_state
   \<and> output (state_of (MultiMetricCallback_on_batch_end get_val_from_metric (\<lambda>arg. arg)
        (p_callback [''a'', ''b''] [Bare 1, Bare 2]) batch_state)) = output batch_state
   \<and> batch_metrics (state_of (MultiMetricCallback_on_batch_end get_val_from_metric (\<lambda>arg. arg)
        (p_callback [''a'', ''b''] [Bare 1, Bare 2]) batch_state)) ''acc'' = Some 0.1"
proof -
  let ?mself = "p_callback [''a'', ''b''] [Bare 1, Bare 2]"
  let ?R = "MetricCallback_on_batch_end get_val_from_metric acc_callback batch_state"
  let ?M = "MultiMetricCallback_on_batch_end get_val_from_metric (\<lambda>arg. arg) ?mself batch_state"
  have 1: "?R = Done (state_of ?R)"
    by (simp add: MetricCallback_on_batch_end_def)
  have 2: "?M = Done (state_of ?M)"
    by (simp add: MultiMetricCallback_on_batch_end_def)
  note T = metric_callbacks_frame [where get_val = get_val_from_metric
      and format_arg = "\<lambda>arg. arg" and self = acc_callback and mself = ?mself
      and state = batch_state and state' = "state_of ?R" and state'' = "state_of ?M"]
  from T 1 have a: "input (state_of ?R) = input batch_state"
    "output (state_of ?R) = output batch_state"
    "\<forall>k. k \<noteq> prefix acc_callback \<longrightarrow>
       batch_metrics (state_of ?R) k = batch_metrics batch_state k"
    by blast+
  from T 2 have b: "input (state_of ?M) = input batch_state"
    "output (state_of ?M) = output batch_state"
    "\<forall>k. k \<notin> metric_key (\<lambda>arg. arg) (prefix ?mself) ` set (list_args ?mself) \<longrightarrow>
       batch_metrics (state_of ?M) k = batch_metrics batch_state k"
    by blast+
  have "''loss'' \<noteq> prefix acc_callback" by simp
  with a(3) have c: "batch_metrics (state_of ?R) ''loss'' = Some 2" by simp
  have "''acc'' \<notin> metric_key (\<lambda>arg. arg) (prefix ?mself) ` set (list_args ?mself)"
    by (simp add: metric_key_def)
  with b(3) have d: "batch_metrics (state_of ?M) ''acc'' = Some 0.1" by simp
  from 1 2 a(1,2) b(1,2) c d show ?thesis by simp
qed

text \<open>
  Claim C8. The metric function and the extraction are functions of their arguments
  (pure and deterministic). Then calling \<open>on_batch_end\<close> of a \<open>MetricCallback\<close> or of a
  \<open>MultiMetricCallback\<close> a second time, on the state the first call left, has the outcome
  of the first call: the same return or the same exception, and the same state, so the
  second call has written the same keys with the same values as the first.
\<close>

theorem metric_hooks_idempotent:
  "MetricCallback_on_batch_end get_val self
      (state_of (MetricCallback_on_batch_end get_val self state))
     = MetricCallback_on_batch_end get_val self state
   \<and> MultiMetricCallback_on_batch_end get_val fa mself
      (state_of (MultiMetricCallback_on_batch_end get_val fa mself state))
     = MultiMetricCallback_on_batch_end get_val fa mself state"
proof
  show "MetricCallback_on_batch_end get_val self
      (state_of (MetricCallback_on_batch_end get_val self state))
     = MetricCallback_on_batch_end get_val self state"
    by (simp add: MetricCallback_on_batch_end_def split: option.split sum.split)
  show "MultiMetricCallback_on_batch_end get_val fa mself
      (state_of (MultiMetricCallback_on_batch_end get_val fa mself state))
     = MultiMetricCallback_on_batch_end get_val fa mself state"
    by (simp add: MultiMetricCallback_on_batch_end_def store_metrics_idempotent
        split: option.split sum.split)
qed

section \<open>CallbackCompose calls its callbacks in order\<close>

lemma hook_method_logging:
  "hook_method h (logging name cb) = logged name h (hook_method h cb)"
  by (cases h) (simp_all add: logging_def)

text \<open>Each of the ten methods of the composition is the loop over the method of its name.\<close>

lemma CallbackCompose_method_for_items:
  "CallbackCompose_method h self state = for_items (hook_method h) (callbacks self) state"
  by (cases h)
    (simp_all add: CallbackCompose_on_train_start_def CallbackCompose_on_train_end_def
      CallbackCompose_on_infer_start_def CallbackCompose_on_infer_end_def
      CallbackCompose_on_epoch_start_def CallbackCompose_on_epoch_end_def
      CallbackCompose_on_loader_start_def CallbackCompose_on_loader_end_def
      CallbackCompose_on_batch_start_def CallbackCompose_on_batch_end_def)

text \<open>
  Wrapping the callbacks changes nothing of what the composition does to the state; the
  list beside the state grows by the calls made.
\<close>

lemma for_items_logging:
  "for_items (hook_method h) (map (\<lambda>(key, value). (key, logging key value)) cbs) (state, seen) =
     (case for_items (hook_method h) cbs state of
        Done s \<Rightarrow> Done (s, seen @ calls_of h cbs state)
      | Raised e s \<Rightarrow> Raised e (s, seen @ calls_of h cbs state))"
proof (induction cbs arbitrary: state seen)
  case Nil
  show ?case by simp
next
  case (Cons c cbs)
  obtain key "value" where c: "c = (key, value)" by (cases c)
  show ?case
  proof (cases "hook_method h value state")
    case (Done s)
    then show ?thesis
      by (simp add: c hook_method_logging logged_def Cons.IH split: outcome.split)
  next
    case (Raised e s)
    then show ?thesis
      by (simp add: c hook_method_logging logged_def)
  qed
qed

lemma invocations_calls_of: "invocations h cbs state = calls_of h cbs state"
  by (simp add: invocations_def CallbackCompose_method_for_items for_items_logging
      split: outcome.split)

lemma calls_of_length: "length (calls_of h cbs state) \<le> length cbs"
proof (induction cbs arbitrary: state)
  case Nil
  show ?case by simp
next
  case (Cons c cbs)
  obtain key "value" where c: "c = (key, value)" by (cases c)
  show ?case using Cons.IH by (simp add: c split: outcome.split)
qed

lemma calls_of_nth:
  "i < length (calls_of h cbs state) \<Longrightarrow>
   fst (calls_of h cbs state ! i) = fst (cbs ! i)
   \<and> fst (snd (calls_of h cbs state ! i)) = h
   \<and> for_items (hook_method h) (take i cbs) state = Done (snd (snd (calls_of h cbs state ! i)))"
proof (induction cbs arbitrary: state i)
  case Nil
  then show ?case by simp
next
  case (Cons c cbs)
  obtain key "value" where c: "c = (key, value)" by (cases c)
  show ?case
  proof (cases i)
    case 0
    then show ?thesis by (simp add: c)
  next
    case (Suc i')
    show ?thesis
    proof (cases "hook_method h value state")
      case (Done s)
      with Cons.prems Suc have "i' < length (calls_of h cbs s)" by (simp add: c)
      from Cons.IH [OF this] show ?thesis by (simp add: c Suc Done)
    next
      case (Raised e s)
      with Cons.prems Suc show ?thesis by (simp add: c)
    qed
  qed
qed

lemma calls_of_all:
  "raised (for_items (hook_method h) cbs state) = None \<Longrightarrow>
   length (calls_of h cbs state) = length cbs"
proof (induction cbs arbitrary: state)
  case Nil
  show ?case by simp
next
  case (Cons c cbs)
  obtain key "value" where c: "c = (key, value)" by (cases c)
  show ?case using Cons by (cases "hook_method h value state") (simp_all add: c)
qed

lemma calls_of_raise:
  "raised (for_items (hook_method h) cbs state) = Some e \<Longrightarrow>
   calls_of h cbs state \<noteq> []
   \<and> raised (hook_method h (snd (cbs ! (length (calls_of h cbs state) - 1)))
        (snd (snd (last (calls_of h cbs state))))) = Some e"
proof (induction cbs arbitrary: state)
  case Nil
  then show ?case by simp
next
  case (Cons c cbs)
  obtain key "value" where c: "c = (key, value)" by (cases c)
  show ?case
  proof (cases "hook_method h value state")
    case (Done s)
    with Cons.prems have "raised (for_items (hook_method h) cbs s) = Some e" by (simp add: c)
    from Cons.IH [OF this] show ?thesis
      by (cases "calls_of h cbs s") (simp_all add: c Done)
  next
    case (Raised e' s)
    with Cons.prems show ?thesis by (simp add: c)
  qed
qed

text \<open>
  Claim C1, as the code has it. Calling the hook \<open>h\<close> of a composition with the callbacks
  \<open>o1, ..., on\<close> (in insertion order) calls the hook \<open>h\<close> of \<open>o1\<close>, then of \<open>o2\<close>, and
  so on in that order, each with the one state object, so that each callback is called
  with the state as the callbacks before it have left it; the calls go on up to and
  including the first callback whose hook raises, whose exception escapes from the
  composition, and when no hook raises all \<open>n\<close> callbacks are called.

  In the statement: the calls made are at most \<open>n\<close>; the call at position \<open>i\<close> is the
  call of hook \<open>h\<close> of the callback at position \<open>i\<close>, with the state that the composition
  of the callbacks before position \<open>i\<close> returns; all callbacks are called when the
  composition returns normally; when it raises, the last call is the one that raised.
\<close>

theorem CallbackCompose_calls_in_order:
  "length (invocations h cbs state) \<le> length cbs
   \<and> (\<forall>i<length (invocations h cbs state).
         fst (invocations h cbs state ! i) = fst (cbs ! i)
         \<and> fst (snd (invocations h cbs state ! i)) = h
         \<and> CallbackCompose_method h \<lparr>callbacks = take i cbs\<rparr> state
             = Done (snd (snd (invocations h cbs state ! i))))
   \<and> (raised (CallbackCompose_method h \<lparr>callbacks = cbs\<rparr> state) = None \<longrightarrow>
         length (invocations h cbs state) = length cbs)
   \<and> (\<forall>e. raised (CallbackCompose_method h \<lparr>callbacks = cbs\<rparr> state) = Some e \<longrightarrow>
         invocations h cbs state \<noteq> []
         \<and> raised (hook_method h (snd (cbs ! (length (invocations h cbs state) - 1)))
              (snd (snd (last (invocations h cbs state))))) = Some e)"
  using calls_of_length [of h cbs state] calls_of_nth [of _ h cbs state]
    calls_of_all [of h cbs state] calls_of_raise [of h cbs state]
  by (simp add: invocations_calls_of CallbackCompose_method_for_items)

text \<open>
  A \<open>MetricCallback\<close> followed by a \<open>MultiMetricCallback\<close>: both are called, in that
  order, the first with the state given and the second with the entry \<open>acc\<close> that the
  first has stored.
\<close>

theorem CallbackCompose_calls_in_order_witness:
  "raised (CallbackCompose_method OnBatchEnd \<lparr>callbacks = batch_callbacks\<rparr> batch_state) = None
   \<and> length (invocations OnBatchEnd batch_callbacks batch_state) = 2
   \<and> fst (invocations OnBatchEnd batch_callbacks batch_state ! 0) = ''acc''
   \<and> fst (invocations OnBatchEnd batch_callbacks batch_state ! 1) = ''p''
   \<and> snd (snd (invocations OnBatchEnd batch_callbacks batch_state ! 0)) = batch_state
   \<and> batch_metrics (snd (snd (invocations OnBatchEnd batch_callbacks batch_state ! 1))) ''acc''
       = Some 0.75"
proof -
  let ?inv = "invocations OnBatchEnd batch_callbacks batch_state"
  note T = CallbackCompose_calls_in_order [of OnBatchEnd batch_callbacks batch_state]
  have first: "MetricCallback_on_batch_end get_val_from_metric acc_callback batch_state
      = Done (batch_state\<lparr>batch_metrics := (batch_metrics batch_state)(''acc'' \<mapsto> 0.75)\<rparr>)"
    by (simp add: MetricCallback_on_batch_end_def)
  have r: "raised (CallbackCompose_method OnBatchEnd \<lparr>callbacks = batch_callbacks\<rparr> batch_state)
      = None"
    by (simp add: batch_callbacks_def CallbackCompose_on_batch_end_def MetricCallback_object_def
        MultiMetricCallback_object_def first MultiMetricCallback_on_batch_end_def)
  from T r have l: "length ?inv = 2" by (simp add: batch_callbacks_def)
  from T have nth: "fst (?inv ! i) = fst (batch_callbacks ! i)
      \<and> CallbackCompose_method OnBatchEnd \<lparr>callbacks = take i batch_callbacks\<rparr> batch_state
          = Done (snd (snd (?inv ! i)))" if "i < length ?inv" for i
    using that by blast
  have i0: "0 < length ?inv" and i1: "1 < length ?inv" using l by simp_all
  from nth [OF i0] have a: "fst (?inv ! 0) = ''acc''" "snd (snd (?inv ! 0)) = batch_state"
    by (simp_all add: batch_callbacks_def CallbackCompose_on_batch_end_def)
  have m: "CallbackCompose_method OnBatchEnd \<lparr>callbacks = take 1 batch_callbacks\<rparr> batch_state
      = Done (batch_state\<lparr>batch_metrics := (batch_metrics batch_state)(''acc'' \<mapsto> 0.75)\<rparr>)"
    by (simp add: batch_callbacks_def CallbackCompose_on_batch_end_def MetricCallback_object_def
        first)
  from nth [OF i1] have b: "fst (?inv ! 1) = ''p''"
    by (simp add: batch_callbacks_def)
  from nth [OF i1] have "Done (snd (snd (?inv ! 1)))
      = (Done (batch_state\<lparr>batch_metrics := (batch_metrics batch_state)(''acc'' \<mapsto> 0.75)\<rparr>)
          :: (utils_error error, (nat, real) RunState) outcome)"
    unfolding m by simp
  then have c: "batch_metrics (snd (snd (?inv ! 1))) ''acc'' = Some 0.75"
    by simp
  from r l a b c show ?thesis by simp
qed

text \<open>
  The claim as stated (every callback of the composition is called, for every state) is
  false: here the first callback of two is a \<open>MetricCallback\<close> whose output key is not in
  the state; its hook raises \<open>KeyError\<close>, which escapes from the composition, and the
  second callback is not called.
\<close>

theorem CallbackCompose_calls_all_counterexample:
  "map fst failing_callbacks = [''metric'', ''other'']
   \<and> map fst (invocations OnBatchEnd failing_callbacks empty_state) = [''metric'']
   \<and> CallbackCompose_method OnBatchEnd \<lparr>callbacks = failing_callbacks\<rparr> empty_state
       = Raised (KeyError ''logits'') empty_state"
  by (simp add: invocations_calls_of failing_callbacks_def CallbackCompose_on_batch_end_def
      MetricCallback_object_def MetricCallback_on_batch_end_def empty_state_def)

end
